theory Spec2Isabelle
  imports Main "HOL-Library.Word" "HOL-Library.Stream"
begin

section \<open>Bytes, strings and Python errors\<close>

text \<open>
  A Python \<open>bytes\<close> value is a list of 8-bit words. A Python \<open>str\<close> is a list of
  Unicode code points (natural numbers up to \<open>0x10FFFF\<close>); only its UTF-8 encoding
  reaches the wire. Every exception the code can raise is a value of \<open>error\<close>:
  the built-in ones by their class, the ones raised with
  \<^verbatim>\<open>raise Exception("...")\<close> by their message. The code has four such
  messages: for an upload whose init frame is refused, for an upload that is not
  confirmed, for a download whose header is invalid, and for an empty read in the
  middle of a download.
\<close>

type_synonym byte = "8 word"

type_synonym pystr = "nat list"

datatype error =
    USBError
  | IndexError
  | StructError
  | UnicodeEncodeError
  | UnicodeDecodeError
  | Exception string

subsection \<open>\<open>struct.pack\<close> and \<open>struct.unpack\<close>, big-endian\<close>

text \<open>\<^verbatim>\<open>struct.pack(">H", n)\<close>: \<open>struct.error\<close> unless \<open>0 \<le> n < 65536\<close>.\<close>

definition pack_u16 :: "int \<Rightarrow> error + byte list" where
  "pack_u16 n =
     (if 0 \<le> n \<and> n < 65536
      then Inr [word_of_int (n div 256), word_of_int (n mod 256)]
      else Inl StructError)"

text \<open>\<^verbatim>\<open>struct.pack(">I", n)\<close>: \<open>struct.error\<close> unless \<open>0 \<le> n < 2 ^ 32\<close>.\<close>

definition pack_u32 :: "int \<Rightarrow> error + byte list" where
  "pack_u32 n =
     (if 0 \<le> n \<and> n < 4294967296
      then Inr [word_of_int (n div 16777216), word_of_int (n div 65536 mod 256),
                word_of_int (n div 256 mod 256), word_of_int (n mod 256)]
      else Inl StructError)"

text \<open>\<^verbatim>\<open>struct.unpack(">I", b)[0]\<close>: \<open>struct.error\<close> unless \<open>b\<close> has exactly 4 bytes.\<close>

fun unpack_u32 :: "byte list \<Rightarrow> error + int" where
  "unpack_u32 [b0, b1, b2, b3] =
     Inr (uint b0 * 16777216 + uint b1 * 65536 + uint b2 * 256 + uint b3)"
| "unpack_u32 _ = Inl StructError"

subsection \<open>\<open>str.encode('utf-8')\<close> and \<open>bytes.decode('utf-8')\<close>\<close>

text \<open>
  The strict UTF-8 codec of Python. Encoding fails on a surrogate code point
  (\<open>0xD800\<close> to \<open>0xDFFF\<close>); no \<open>str\<close> holds a code point above \<open>0x10FFFF\<close>,
  and the model refuses one in the same way.
\<close>

definition utf8_encode_cp :: "nat \<Rightarrow> error + byte list" where
  "utf8_encode_cp cp =
     (if cp < 0x80 then Inr [of_nat cp]
      else if cp < 0x800 then Inr [of_nat (0xC0 + cp div 64), of_nat (0x80 + cp mod 64)]
      else if 0xD800 \<le> cp \<and> cp \<le> 0xDFFF then Inl UnicodeEncodeError
      else if cp < 0x10000 then
        Inr [of_nat (0xE0 + cp div 4096), of_nat (0x80 + cp div 64 mod 64),
             of_nat (0x80 + cp mod 64)]
      else if cp \<le> 0x10FFFF then
        Inr [of_nat (0xF0 + cp div 262144), of_nat (0x80 + cp div 4096 mod 64),
             of_nat (0x80 + cp div 64 mod 64), of_nat (0x80 + cp mod 64)]
      else Inl UnicodeEncodeError)"

fun utf8_encode :: "pystr \<Rightarrow> error + byte list" where
  "utf8_encode [] = Inr []"
| "utf8_encode (cp # s) =
     (case utf8_encode_cp cp of
        Inl e \<Rightarrow> Inl e
      | Inr bs \<Rightarrow> (case utf8_encode s of Inl e \<Rightarrow> Inl e | Inr rest \<Rightarrow> Inr (bs @ rest)))"

text \<open>A continuation byte is \<open>10xxxxxx\<close>; \<open>cont_in lo hi b\<close> narrows the range.\<close>

definition cont_in :: "nat \<Rightarrow> nat \<Rightarrow> byte \<Rightarrow> bool" where
  "cont_in lo hi b \<longleftrightarrow> lo \<le> unat b \<and> unat b \<le> hi"

definition low6 :: "byte \<Rightarrow> nat" where
  "low6 b = unat b mod 64"

text \<open>
  Decoding follows the table of well-formed byte sequences of the Unicode standard:
  no overlong form, no surrogate, nothing above \<open>0x10FFFF\<close>.
\<close>

fun utf8_decode :: "byte list \<Rightarrow> error + pystr" where
  "utf8_decode [] = Inr []"
| "utf8_decode (b # bs) =
     (let n = unat b in
      if n < 0x80 then
        (case utf8_decode bs of Inl e \<Rightarrow> Inl e | Inr s \<Rightarrow> Inr (n # s))
      else if 0xC2 \<le> n \<and> n \<le> 0xDF then
        (case bs of
           c1 # r \<Rightarrow>
             if cont_in 0x80 0xBF c1
             then (case utf8_decode r of
                     Inl e \<Rightarrow> Inl e
                   | Inr s \<Rightarrow> Inr (((n mod 32) * 64 + low6 c1) # s))
             else Inl UnicodeDecodeError
         | _ \<Rightarrow> Inl UnicodeDecodeError)
      else if 0xE0 \<le> n \<and> n \<le> 0xEF then
        (case bs of
           c1 # c2 # r \<Rightarrow>
             if cont_in (if n = 0xE0 then 0xA0 else 0x80) (if n = 0xED then 0x9F else 0xBF) c1
                \<and> cont_in 0x80 0xBF c2
             then (case utf8_decode r of
                     Inl e \<Rightarrow> Inl e
                   | Inr s \<Rightarrow> Inr (((n mod 16) * 4096 + low6 c1 * 64 + low6 c2) # s))
             else Inl UnicodeDecodeError
         | _ \<Rightarrow> Inl UnicodeDecodeError)
      else if 0xF0 \<le> n \<and> n \<le> 0xF4 then
        (case bs of
           c1 # c2 # c3 # r \<Rightarrow>
             if cont_in (if n = 0xF0 then 0x90 else 0x80) (if n = 0xF4 then 0x8F else 0xBF) c1
                \<and> cont_in 0x80 0xBF c2 \<and> cont_in 0x80 0xBF c3
             then (case utf8_decode r of
                     Inl e \<Rightarrow> Inl e
                   | Inr s \<Rightarrow>
                       Inr (((n mod 8) * 262144 + low6 c1 * 4096 + low6 c2 * 64 + low6 c3) # s))
             else Inl UnicodeDecodeError
         | _ \<Rightarrow> Inl UnicodeDecodeError)
      else Inl UnicodeDecodeError)"

subsection \<open>Slices and \<open>bytes.find\<close>\<close>

text \<open>
  \<^verbatim>\<open>xs[a:b]\<close> for integers \<open>a\<close> and \<open>b\<close>: a negative index counts from the end,
  both are clamped to the length, and the slice is empty when the bounds cross.
\<close>

definition slice :: "'a list \<Rightarrow> int \<Rightarrow> int \<Rightarrow> 'a list" where
  "slice xs a b =
     (let n = int (length xs);
          lo = (if a < 0 then max 0 (a + n) else min a n);
          hi = (if b < 0 then max 0 (b + n) else min b n)
      in take (nat (hi - lo)) (drop (nat lo) xs))"

text \<open>\<^verbatim>\<open>xs[-2:]\<close>: the last two elements, or all of a shorter list.\<close>

definition last2 :: "'a list \<Rightarrow> 'a list" where
  "last2 xs = drop (length xs - 2) xs"

text \<open>
  \<^verbatim>\<open>xs.find(bytes([b]), start)\<close>: the least index \<open>i \<ge> start\<close> with
  \<open>xs[i] = b\<close>, and \<open>-1\<close> when there is none.
\<close>

fun find_from :: "byte \<Rightarrow> byte list \<Rightarrow> nat \<Rightarrow> int" where
  "find_from b [] i = - 1"
| "find_from b (x # xs) i = (if x = b then int i else find_from b xs (Suc i))"

definition bytes_find :: "byte list \<Rightarrow> byte \<Rightarrow> nat \<Rightarrow> int" where
  "bytes_find xs b start = find_from b (drop start xs) start"

section \<open>The USB transport\<close>

text \<open>
  The device is an external collaborator. Its bulk-in side is the stream of what the
  successive calls of \<^verbatim>\<open>device.read\<close> return: a frame, or a fault (pyusb raises
  \<open>USBError\<close>, for instance on a timeout). Its bulk-out side is the log of the byte
  strings written so far; the scripted device accepts every write. The length that a
  read asks for is passed on but the device decides what it sends. \<open>dev_write\<close> and
  \<open>dev_read\<close> are the methods \<open>write\<close> and \<open>read\<close> of both modules.
\<close>

datatype rx_event = Frame "byte list" | Fault

record transport =
  device_in :: "rx_event stream"
  device_out :: "byte list list"

definition dev_write :: "byte list \<Rightarrow> transport \<Rightarrow> transport" where
  "dev_write data t = t\<lparr>device_out := device_out t @ [data]\<rparr>"

definition dev_read :: "nat \<Rightarrow> transport \<Rightarrow> (error + byte list) \<times> transport" where
  "dev_read len t =
     (case shd (device_in t) of
        Frame f \<Rightarrow> (Inr f, t\<lparr>device_in := stl (device_in t)\<rparr>)
      | Fault \<Rightarrow> (Inl USBError, t\<lparr>device_in := stl (device_in t)\<rparr>))"

section \<open>File transfer (\<open>tinspire_device.py\<close>)\<close>

definition SERVICE_FILE :: int where
  "SERVICE_FILE = 0x4060"

text \<open>
  \<open>build_packet\<close>: the path is encoded first, then the command is packed; the packet is
  header, path, one NUL, payload. The path is not inspected.
\<close>

definition build_packet :: "int \<Rightarrow> pystr \<Rightarrow> byte list \<Rightarrow> error + byte list" where
  "build_packet cmd path payload =
     (case utf8_encode path of
        Inl e \<Rightarrow> Inl e
      | Inr p \<Rightarrow>
          (let path_encoded = p @ [0] in
           case pack_u16 cmd of
             Inl e \<Rightarrow> Inl e
           | Inr header \<Rightarrow> Inr (header @ path_encoded @ payload)))"

text \<open>\<open>connect_service\<close>: write the service identifier, read one frame and drop it.\<close>

definition connect_service :: "int \<Rightarrow> transport \<Rightarrow> (error + unit) \<times> transport" where
  "connect_service service_id t =
     (case pack_u16 service_id of
        Inl e \<Rightarrow> (Inl e, t)
      | Inr service_packet \<Rightarrow>
          (case dev_read 512 (dev_write service_packet t) of
             (Inl e, t') \<Rightarrow> (Inl e, t')
           | (Inr response, t') \<Rightarrow> (Inr (), t')))"

definition disconnect_service :: "transport \<Rightarrow> transport" where
  "disconnect_service t = dev_write [0xFF] t"

definition close_service :: "transport \<Rightarrow> transport" where
  "close_service t = dev_write [0x04] t"

subsection \<open>Upload\<close>

text \<open>
  The chunk loop of \<open>file_write\<close>:
  \<^verbatim>\<open>while offset < len(file_content): chunk = file_content[offset:offset + 253]; ...\<close>
\<close>

function send_chunks :: "nat \<Rightarrow> byte list \<Rightarrow> transport \<Rightarrow> transport" where
  "send_chunks offset file_content t =
     (if offset < length file_content then
        (let chunk = take 253 (drop offset file_content);
             packet = 0x05 # chunk
         in send_chunks (offset + length chunk) file_content (dev_write packet t))
      else t)"
  by pat_completeness auto
termination
  by (relation "measure (\<lambda>(offset, file_content, t). length file_content - offset)") auto

declare send_chunks.simps [simp del]

definition file_write :: "pystr \<Rightarrow> byte list \<Rightarrow> transport \<Rightarrow> (error + unit) \<times> transport" where
  "file_write remote_path file_content t0 =
     (case connect_service SERVICE_FILE t0 of
        (Inl e, t1) \<Rightarrow> (Inl e, t1)
      | (Inr u, t1) \<Rightarrow>
     (case pack_u32 (int (length file_content)) of
        Inl e \<Rightarrow> (Inl e, t1)
      | Inr size_bytes \<Rightarrow>
     (case build_packet 0x0301 remote_path size_bytes of
        Inl e \<Rightarrow> (Inl e, t1)
      | Inr init_packet \<Rightarrow>
     (case dev_read 512 (dev_write init_packet t1) of
        (Inl e, t2) \<Rightarrow> (Inl e, t2)
      | (Inr response, t2) \<Rightarrow>
          if response = [] then (Inl IndexError, t2)
          else if hd response \<noteq> 0x04 then
            (Inl (Exception ''Invalid response on file write initialization.''), t2)
          else
     (case dev_read 512 (send_chunks 0 file_content t2) of
        (Inl e, t3) \<Rightarrow> (Inl e, t3)
      | (Inr final_response, t3) \<Rightarrow>
          if last2 final_response \<noteq> [0xFF, 0x00] then
            (Inl (Exception ''File upload failed or not confirmed by device.''), t3)
          else (Inr (), close_service t3))))))"

subsection \<open>Download\<close>

text \<open>
  One pass through the body of the receive loop of \<open>file_read\<close>, from the read to the
  update of \<open>bytes_left\<close> and \<open>data_received\<close>.
\<close>

definition recv_chunk ::
  "transport \<Rightarrow> int \<Rightarrow> byte list \<Rightarrow> (error + int \<times> byte list) \<times> transport" where
  "recv_chunk t bytes_left data_received =
     (let chunk_size = min (bytes_left + 1) 254 in
      case dev_read (nat chunk_size) t of
        (Inl e, t') \<Rightarrow> (Inl e, t')
      | (Inr chunk, t') \<Rightarrow>
          if chunk = [] then (Inl (Exception ''Unexpected timeout during file read.''), t')
          else
            (let data_chunk = drop 1 chunk;
                 data_len = int (length data_chunk)
             in (Inr (bytes_left - data_len, data_received @ data_chunk), t')))"

text \<open>
  \<^verbatim>\<open>while bytes_left > 0: ...\<close>. Nothing in the loop bounds the number of passes, so
  the result is an option: \<open>None\<close> is a loop that never exits.
\<close>

partial_function (option) recv_loop ::
  "transport \<Rightarrow> int \<Rightarrow> byte list \<Rightarrow> ((error + int \<times> byte list) \<times> transport) option" where
  "recv_loop t bytes_left data_received =
     (if bytes_left > 0 then
        (case recv_chunk t bytes_left data_received of
           (Inl e, t') \<Rightarrow> Some (Inl e, t')
         | (Inr (bytes_left', data_received'), t') \<Rightarrow> recv_loop t' bytes_left' data_received')
      else Some (Inr (bytes_left, data_received), t))"

definition file_read :: "pystr \<Rightarrow> transport \<Rightarrow> ((error + byte list) \<times> transport) option" where
  "file_read remote_path t0 =
     (case connect_service SERVICE_FILE t0 of
        (Inl e, t1) \<Rightarrow> Some (Inl e, t1)
      | (Inr u, t1) \<Rightarrow>
     (case pack_u16 0x0701 of
        Inl e \<Rightarrow> Some (Inl e, t1)
      | Inr cmd \<Rightarrow>
     (case utf8_encode remote_path of
        Inl e \<Rightarrow> Some (Inl e, t1)
      | Inr p \<Rightarrow>
     (case dev_read 512 (dev_write (cmd @ p @ [0]) t1) of
        (Inl e, t2) \<Rightarrow> Some (Inl e, t2)
      | (Inr header_response, t2) \<Rightarrow>
          if length header_response < 16 \<or> take 2 header_response \<noteq> [0x03, 0x01] then
            Some (Inl (Exception ''File doesn't exist or invalid response.''), close_service t2)
          else
     (case unpack_u32 (slice header_response 12 16) of
        Inl e \<Rightarrow> Some (Inl e, t2)
      | Inr file_size \<Rightarrow>
     (case recv_loop (dev_write [0x04] t2) file_size [] of
        None \<Rightarrow> None
      | Some (Inl e, t3) \<Rightarrow> Some (Inl e, t3)
      | Some (Inr (bytes_left, data_received), t3) \<Rightarrow>
          Some (Inr data_received, close_service (dev_write [0xFF, 0x00] t3))))))))"

section \<open>Directory listing (\<open>tinspire_list_files.py\<close>)\<close>

text \<open>
  The module has its own \<open>connect_service\<close> and \<open>disconnect_service\<close>; they carry the
  prefix \<open>list_\<close> here.
\<close>

definition list_connect_service :: "transport \<Rightarrow> (error + unit) \<times> transport" where
  "list_connect_service t =
     (case pack_u16 SERVICE_FILE of
        Inl e \<Rightarrow> (Inl e, t)
      | Inr packet \<Rightarrow>
          (case dev_read 512 (dev_write packet t) of
             (Inl e, t') \<Rightarrow> (Inl e, t')
           | (Inr response, t') \<Rightarrow> (Inr (), t')))"

definition list_disconnect_service :: "transport \<Rightarrow> transport" where
  "list_disconnect_service t = dev_write [0x04] t"

text \<open>One element of the list that \<open>list_directory\<close> returns (a dict in the source).\<close>

record dir_entry =
  entry_name :: pystr
  entry_size :: int
  entry_kind :: string

text \<open>
  The decoding block of the listing loop: \<open>entry[1]\<close>, the two \<open>struct.unpack\<close> calls,
  \<open>entry.find\<close>, the slice up to \<open>name_end\<close> and its \<open>decode\<close>, in the source's order.
\<close>

definition decode_entry :: "byte list \<Rightarrow> error + dir_entry" where
  "decode_entry entry =
     (if length entry < 2 then Inl IndexError
      else
        (let entry_type = entry ! 1 in
         case unpack_u32 (slice entry 4 8) of
           Inl e \<Rightarrow> Inl e
         | Inr entry_sz \<Rightarrow>
        (case unpack_u32 (slice entry 8 12) of
           Inl e \<Rightarrow> Inl e
         | Inr date \<Rightarrow>
        (let name_end = bytes_find entry 0x00 12 in
         case utf8_decode (slice entry 12 name_end) of
           Inl e \<Rightarrow> Inl e
         | Inr filename \<Rightarrow>
             Inr \<lparr>entry_name = filename, entry_size = entry_sz,
                  entry_kind = (if entry_type \<noteq> 0 then ''dir'' else ''file'')\<rparr>))))"

text \<open>\<^verbatim>\<open>while True: ...\<close>: the loop ends only at a frame whose first byte is \<open>0xFF\<close>.\<close>

partial_function (option) list_loop ::
  "transport \<Rightarrow> dir_entry list \<Rightarrow> ((error + dir_entry list) \<times> transport) option" where
  "list_loop t files =
     (case dev_read 512 (dev_write [0x0E] t) of
        (Inl e, t') \<Rightarrow> Some (Inl e, t')
      | (Inr entry, t') \<Rightarrow>
          if entry = [] then Some (Inl IndexError, t')
          else if hd entry = 0xFF then Some (Inr files, t')
          else
            (case decode_entry entry of
               Inl e \<Rightarrow> Some (Inl e, t')
             | Inr d \<Rightarrow> list_loop t' (files @ [d])))"

definition list_directory ::
  "pystr \<Rightarrow> transport \<Rightarrow> ((error + dir_entry list) \<times> transport) option" where
  "list_directory path t0 =
     (case list_connect_service t0 of
        (Inl e, t1) \<Rightarrow> Some (Inl e, t1)
      | (Inr u, t1) \<Rightarrow>
     (case utf8_encode path of
        Inl e \<Rightarrow> Some (Inl e, t1)
      | Inr p \<Rightarrow>
     (case dev_read 512 (dev_write ([0x0D] @ p @ [0]) t1) of
        (Inl e, t2) \<Rightarrow> Some (Inl e, t2)
      | (Inr response, t2) \<Rightarrow>
     (case list_loop t2 [] of
        None \<Rightarrow> None
      | Some (Inl e, t3) \<Rightarrow> Some (Inl e, t3)
      | Some (Inr files, t3) \<Rightarrow> Some (Inr files, list_disconnect_service t3)))))"

section \<open>Predicates for stating the properties\<close>

text \<open>
  A frame that the listing loop takes for a directory entry: its first byte is not the
  end marker and the decoding block accepts it.
\<close>

definition entry_frame :: "byte list \<Rightarrow> dir_entry \<Rightarrow> bool" where
  "entry_frame f d \<longleftrightarrow> hd f \<noteq> 0xFF \<and> decode_entry f = Inr d"

text \<open>
  The first \<open>k\<close> chunk packets of an upload when each carries 253 data bytes: packet
  \<open>i\<close> is the marker \<open>0x05\<close> and the bytes \<open>253 i\<close> to \<open>253 i + 252\<close> of the payload.
\<close>

definition full_chunks :: "nat \<Rightarrow> byte list \<Rightarrow> byte list list" where
  "full_chunks k file_content =
     map (\<lambda>i. 0x05 # take 253 (drop (253 * i) file_content)) [0..<k]"

text \<open>
  What the final response of an upload decides: the result of \<open>file_write\<close>, and what
  it writes after the chunks (the disconnect byte of \<open>close_service\<close>, or nothing).
\<close>

definition upload_result :: "byte list \<Rightarrow> error + unit" where
  "upload_result final_response =
     (if last2 final_response = [0xFF, 0x00] then Inr ()
      else Inl (Exception ''File upload failed or not confirmed by device.''))"

definition upload_closing :: "byte list \<Rightarrow> byte list list" where
  "upload_closing final_response =
     (if last2 final_response = [0xFF, 0x00] then [[0x04]] else [])"

text \<open>
  The data bytes of a sequence of chunk frames: each frame without its first byte, in
  order.
\<close>

definition frames_data :: "byte list list \<Rightarrow> byte list" where
  "frames_data fs = concat (map (drop 1) fs)"

text \<open>
  Every frame that the receive loop reads while bytes remain is non-empty and no longer
  than the \<open>min (bytes_left + 1) 254\<close> bytes that the read asks for; \<open>bytes_left\<close>
  is updated from frame to frame as the loop does.
\<close>

fun within_request :: "int \<Rightarrow> byte list list \<Rightarrow> bool" where
  "within_request bytes_left [] = True"
| "within_request bytes_left (f # fs) =
     (bytes_left \<le> 0
      \<or> (1 \<le> length f \<and> int (length f) \<le> min (bytes_left + 1) 254
         \<and> within_request (bytes_left - (int (length f) - 1)) fs))"


section \<open>Facts about the codecs and the transport\<close>

lemma transport_upd_out [simp]:
  "t\<lparr>device_out := out\<rparr> = \<lparr>device_in = device_in t, device_out = out\<rparr>"
  by (cases t) simp

lemma transport_upd_in [simp]:
  "t\<lparr>device_in := i\<rparr> = \<lparr>device_in = i, device_out = device_out t\<rparr>"
  by (cases t) simp

lemma transport_eta [simp]:
  "\<lparr>device_in = device_in t, device_out = device_out t\<rparr> = t"
  by (cases t) simp

lemma transport_rebuild:
  "device_in t = s \<Longrightarrow> \<lparr>device_in = s, device_out = device_out t\<rparr> = t"
  by (cases t) auto

lemma transport_upd_in_out [simp]:
  "t\<lparr>device_in := i, device_out := out\<rparr> = \<lparr>device_in = i, device_out = out\<rparr>"
  by (cases t) simp

lemma transport_upd_out_in [simp]:
  "t\<lparr>device_out := out, device_in := i\<rparr> = \<lparr>device_in = i, device_out = out\<rparr>"
  by (cases t) simp

lemma decode_entry_nonempty: "decode_entry f = Inr d \<Longrightarrow> f \<noteq> []"
  by (auto simp: decode_entry_def)

lemma unpack_u32_wrong_length: "length xs \<noteq> 4 \<Longrightarrow> unpack_u32 xs = Inl StructError"
  by (cases xs rule: unpack_u32.cases) auto

lemma unpack_u32_nonneg: "unpack_u32 xs = Inr v \<Longrightarrow> 0 \<le> v"
  by (cases xs rule: unpack_u32.cases) auto

lemma utf8_encode_keeps_nul: "utf8_encode path = Inr p \<Longrightarrow> 0 \<in> set path \<Longrightarrow> 0 \<in> set p"
proof (induction path arbitrary: p)
  case Nil
  then show ?case by simp
next
  case (Cons cp s)
  from Cons.prems(1) obtain bs rest where
    bs: "utf8_encode_cp cp = Inr bs" and rest: "utf8_encode s = Inr rest" and p: "p = bs @ rest"
    by (auto split: sum.splits)
  show ?case
  proof (cases "cp = 0")
    case True
    with bs have "bs = [0]" by (simp add: utf8_encode_cp_def)
    with p show ?thesis by simp
  next
    case False
    with Cons.prems(2) have "0 \<in> set s" by simp
    with rest have "0 \<in> set rest" by (rule Cons.IH)
    with p show ?thesis by simp
  qed
qed

section \<open>Ending a service\<close>

text \<open>
  Claim C9: every disconnect from a service writes the single marker byte \<open>0x04\<close>.
  \<open>close_service\<close> of the transfer module and \<open>disconnect_service\<close> of the listing
  module do; \<open>disconnect_service\<close> of the transfer module writes \<open>0xFF\<close> instead.
\<close>

theorem disconnect_service_marker:
  "device_out (disconnect_service t) = device_out t @ [[0xFF]]
   \<and> device_out (close_service t) = device_out t @ [[0x04]]
   \<and> device_out (list_disconnect_service t) = device_out t @ [[0x04]]"
  by (simp add: disconnect_service_def close_service_def list_disconnect_service_def
      dev_write_def)

section \<open>Errors inside a connected session\<close>

text \<open>
  Claim C1: after a protocol error inside a connected session the operation writes the
  disconnect marker before the error reaches the caller. Three runs show the opposite:
  an upload whose init frame is answered by \<open>0x00\<close>, an upload whose final frame does
  not end in \<open>0xFF 0x00\<close>, and a download of 2 bytes whose first data read is empty.
  Each ends in the exception, and the last write is the init frame, the data chunk and
  the begin-transfer byte respectively: nothing is written after the error.
\<close>

theorem protocol_error_no_disconnect:
  "file_write [0x2F, 0x61] [1]
     \<lparr>device_in = Frame [0] ## Frame [0] ## sconst Fault, device_out = []\<rparr>
     = (Inl (Exception ''Invalid response on file write initialization.''),
        \<lparr>device_in = sconst Fault,
         device_out = [[0x40, 0x60], [0x03, 0x01, 0x2F, 0x61, 0, 0, 0, 0, 1]]\<rparr>)
   \<and> file_write [0x2F, 0x61] [1]
     \<lparr>device_in = Frame [0] ## Frame [0x04] ## Frame [0xFF, 0x01] ## sconst Fault,
      device_out = []\<rparr>
     = (Inl (Exception ''File upload failed or not confirmed by device.''),
        \<lparr>device_in = sconst Fault,
         device_out = [[0x40, 0x60], [0x03, 0x01, 0x2F, 0x61, 0, 0, 0, 0, 1], [0x05, 1]]\<rparr>)
   \<and> file_read [0x2F, 0x61]
     \<lparr>device_in = Frame [0] ## Frame [0x03, 0x01, 0, 0, 0, 0, 0, 0, 0, 0, 0, 0, 0, 0, 0, 2]
        ## Frame [] ## sconst Fault,
      device_out = []\<rparr>
     = Some (Inl (Exception ''Unexpected timeout during file read.''),
        \<lparr>device_in = sconst Fault,
         device_out = [[0x40, 0x60], [0x07, 0x01, 0x2F, 0x61, 0], [0x04]]\<rparr>)"
  by (simp add: file_write_def file_read_def connect_service_def SERVICE_FILE_def
      pack_u16_def pack_u32_def build_packet_def utf8_encode_cp_def dev_read_def
      dev_write_def last2_def send_chunks.simps recv_loop.simps recv_chunk_def slice_def)



section \<open>The packet codec\<close>

text \<open>
  Claim C7: a path with an embedded NUL makes the packet encoder fail with an
  EncodingError. It does not: the path \<open>a\<close>, NUL, \<open>b\<close> is encoded as it is, and the
  packet holds a NUL before the terminator.
\<close>

theorem build_packet_embedded_nul_accepted:
  "build_packet 0x0301 [0x61, 0, 0x62] [1, 2] = Inr [0x03, 0x01, 0x61, 0, 0x62, 0, 1, 2]"
  by (simp add: build_packet_def pack_u16_def utf8_encode_cp_def)

text \<open>
  Claim C7, as amended: \<open>build_packet\<close> makes no check for NUL. For a command code in
  \<open>0 .. 65535\<close> and a path that encodes to UTF-8, with or without NUL characters, it
  returns the two command bytes, the encoded path, one NUL and the payload; a NUL
  character of the path is a NUL byte of the encoded path.
\<close>

theorem build_packet_no_nul_check:
  assumes "0 \<le> cmd" and "cmd < 65536" and "utf8_encode path = Inr p"
  shows "build_packet cmd path payload =
           Inr ([word_of_int (cmd div 256), word_of_int (cmd mod 256)] @ p @ [0] @ payload)
         \<and> (0 \<in> set path \<longrightarrow> 0 \<in> set p)"
  using assms by (auto simp: build_packet_def pack_u16_def dest: utf8_encode_keeps_nul)

theorem build_packet_no_nul_check_witness:
  "(0::int) \<le> 0x0301 \<and> (0x0301::int) < 65536
   \<and> utf8_encode [0x61, 0, 0x62] = Inr [0x61, 0, 0x62]
   \<and> build_packet 0x0301 [0x61, 0, 0x62] [9] = Inr ([0x03, 0x01] @ [0x61, 0, 0x62] @ [0] @ [9])
   \<and> (0::nat) \<in> set [0x61, 0, 0x62] \<and> (0::byte) \<in> set [0x61, 0, 0x62]"
proof -
  have enc: "utf8_encode [0x61, 0, 0x62] = Inr [0x61, 0, 0x62]"
    by (simp add: utf8_encode_cp_def)
  from build_packet_no_nul_check [of "0x0301" "[0x61, 0, 0x62]" "[0x61, 0, 0x62]" "[9]"] enc
  show ?thesis by simp
qed

text \<open>
  Claim C8: a directory-entry buffer shorter than 13 bytes, or without a NUL at or after
  offset 12, fails to decode. A buffer of 12 zero bytes decodes to an entry with the empty
  name, and a 15-byte buffer with no NUL after offset 12 decodes to an entry whose name
  is the bytes 12 and 13.
\<close>

theorem decode_entry_accepts_malformed:
  "decode_entry [0, 0, 0, 0, 0, 0, 0, 0, 0, 0, 0, 0]
     = Inr \<lparr>entry_name = [], entry_size = 0, entry_kind = ''file''\<rparr>
   \<and> decode_entry [0, 1, 0, 0, 0, 0, 0, 7, 0, 0, 0, 0, 0x61, 0x62, 0x63]
     = Inr \<lparr>entry_name = [0x61, 0x62], entry_size = 7, entry_kind = ''dir''\<rparr>"
  by (simp add: decode_entry_def slice_def bytes_find_def)

text \<open>
  Claim C8, as amended: a directory-entry buffer shorter than 12 bytes fails to decode:
  with \<open>IndexError\<close> below 2 bytes and with \<open>struct.error\<close> from 2 to 11 bytes.
\<close>

theorem decode_entry_short:
  assumes "length entry < 12"
  shows "decode_entry entry = Inl (if length entry < 2 then IndexError else StructError)"
proof (cases "length entry < 2")
  case True
  then show ?thesis by (simp add: decode_entry_def)
next
  case two: False
  show ?thesis
  proof (cases "length entry < 8")
    case True
    then have "length (slice entry 4 8) \<noteq> 4" by (simp add: slice_def)
    then have "unpack_u32 (slice entry 4 8) = Inl StructError"
      by (rule unpack_u32_wrong_length)
    with two show ?thesis by (simp add: decode_entry_def)
  next
    case False
    then have "length (slice entry 4 8) = 4" by (simp add: slice_def)
    then obtain v where v: "unpack_u32 (slice entry 4 8) = Inr v"
      by (cases "slice entry 4 8" rule: unpack_u32.cases) auto
    from assms False have "length (slice entry 8 12) \<noteq> 4" by (simp add: slice_def)
    then have "unpack_u32 (slice entry 8 12) = Inl StructError"
      by (rule unpack_u32_wrong_length)
    with two v show ?thesis by (simp add: decode_entry_def)
  qed
qed

theorem decode_entry_short_witness:
  "length [0x00, 0x01, 0x00 :: byte] < 12 \<and> decode_entry [0x00, 0x01, 0x00] = Inl StructError"
  using decode_entry_short [of "[0x00, 0x01, 0x00]"] by simp

section \<open>Directory listing\<close>

lemma list_loop_entry:
  assumes "entry_frame f d" and "device_in t = Frame f ## s"
  shows "list_loop t acc =
           list_loop \<lparr>device_in = s, device_out = device_out t @ [[0x0E]]\<rparr> (acc @ [d])"
  using assms decode_entry_nonempty [of f d]
  by (subst list_loop.simps) (simp add: entry_frame_def dev_read_def dev_write_def)

lemma list_loop_end:
  assumes "device_in t = Frame (0xFF # x) ## s"
  shows "list_loop t acc =
           Some (Inr acc, \<lparr>device_in = s, device_out = device_out t @ [[0x0E]]\<rparr>)"
  using assms by (subst list_loop.simps) (simp add: dev_read_def dev_write_def)

lemma list_loop_entries:
  assumes "list_all2 entry_frame fs ds"
    and "device_in t = map Frame fs @- (Frame (0xFF # x) ## rest)"
  shows "list_loop t acc =
           Some (Inr (acc @ ds),
                 \<lparr>device_in = rest,
                  device_out = device_out t @ replicate (Suc (length fs)) [0x0E]\<rparr>)"
  using assms
proof (induction arbitrary: t acc rule: list_all2_induct)
  case Nil
  then show ?case by (simp add: list_loop_end)
next
  case (Cons f fs d ds)
  let ?t = "\<lparr>device_in = map Frame fs @- (Frame (0xFF # x) ## rest),
             device_out = device_out t @ [[0x0E]]\<rparr>"
  from Cons.prems have "device_in t = Frame f ## (map Frame fs @- (Frame (0xFF # x) ## rest))"
    by simp
  with Cons.hyps(1) have "list_loop t acc = list_loop ?t (acc @ [d])"
    by (rule list_loop_entry)
  also have "\<dots> = Some (Inr ((acc @ [d]) @ ds),
      \<lparr>device_in = rest, device_out = device_out ?t @ replicate (Suc (length fs)) [0x0E]\<rparr>)"
    by (rule Cons.IH) simp
  finally show ?case by (simp add: replicate_append_same)
qed

text \<open>
  Claim C4: when the device, after the acknowledgment of the list command, sends three
  frames that decode to entries and then a frame whose first byte is \<open>0xFF\<close>,
  \<open>list_directory\<close> returns those three entries in the order received, and the
  writes of the run hold exactly four next-entry requests \<open>0x0E\<close>.
\<close>

theorem list_directory_three_entries:
  assumes "utf8_encode path = Inr p"
    and "device_in t = Frame c ## Frame ack ## Frame f1 ## Frame f2 ## Frame f3
                       ## Frame (0xFF # x) ## rest"
    and "hd f1 \<noteq> 0xFF" and "decode_entry f1 = Inr e1"
    and "hd f2 \<noteq> 0xFF" and "decode_entry f2 = Inr e2"
    and "hd f3 \<noteq> 0xFF" and "decode_entry f3 = Inr e3"
  shows "list_directory path t =
           Some (Inr [e1, e2, e3],
                 \<lparr>device_in = rest,
                  device_out = device_out t @
                     [[0x40, 0x60], [0x0D] @ p @ [0],
                      [0x0E], [0x0E], [0x0E], [0x0E], [0x04]]\<rparr>)
         \<and> length (filter (\<lambda>w. w = [0x0E])
              [[0x40, 0x60], [0x0D] @ p @ [0], [0x0E], [0x0E], [0x0E], [0x0E], [0x04 :: byte]]) = 4"
proof -
  let ?s = "map Frame [f1, f2, f3] @- (Frame (0xFF # x) ## rest)"
  let ?t2 = "\<lparr>device_in = ?s, device_out = device_out t @ [[0x40, 0x60], [0x0D] @ p @ [0]]\<rparr>"
  have fs: "list_all2 entry_frame [f1, f2, f3] [e1, e2, e3]"
    using assms(3-8) by (simp add: entry_frame_def)
  have loop: "list_loop ?t2 [] =
      Some (Inr ([] @ [e1, e2, e3]),
            \<lparr>device_in = rest,
             device_out = device_out ?t2 @ replicate (Suc (length [f1, f2, f3])) [0x0E]\<rparr>)"
    by (rule list_loop_entries [OF fs]) simp
  have "list_directory path t =
      (case list_loop ?t2 [] of
         None \<Rightarrow> None
       | Some (Inl e, t3) \<Rightarrow> Some (Inl e, t3)
       | Some (Inr files, t3) \<Rightarrow> Some (Inr files, list_disconnect_service t3))"
    using assms(1,2)
    by (simp add: list_directory_def list_connect_service_def SERVICE_FILE_def pack_u16_def
        dev_read_def dev_write_def)
  with loop show ?thesis
    by (simp add: list_disconnect_service_def dev_write_def numeral_3_eq_3)
qed

theorem list_directory_three_entries_witness:
  "utf8_encode [0x2F] = Inr [0x2F]
   \<and> hd [0, 0, 0, 0, 0, 0, 0, 5, 0, 0, 0, 0, 0x61, 0 :: byte] \<noteq> 0xFF
   \<and> decode_entry [0, 0, 0, 0, 0, 0, 0, 5, 0, 0, 0, 0, 0x61, 0]
       = Inr \<lparr>entry_name = [0x61], entry_size = 5, entry_kind = ''file''\<rparr>
   \<and> hd [0, 1, 0, 0, 0, 0, 0, 0, 0, 0, 0, 0, 0x62, 0 :: byte] \<noteq> 0xFF
   \<and> decode_entry [0, 1, 0, 0, 0, 0, 0, 0, 0, 0, 0, 0, 0x62, 0]
       = Inr \<lparr>entry_name = [0x62], entry_size = 0, entry_kind = ''dir''\<rparr>
   \<and> hd [0, 0, 0, 0, 0, 0, 1, 0, 0, 0, 0, 0, 0x63, 0 :: byte] \<noteq> 0xFF
   \<and> decode_entry [0, 0, 0, 0, 0, 0, 1, 0, 0, 0, 0, 0, 0x63, 0]
       = Inr \<lparr>entry_name = [0x63], entry_size = 256, entry_kind = ''file''\<rparr>
   \<and> list_directory [0x2F]
        \<lparr>device_in = Frame [0] ## Frame [0, 0]
           ## Frame [0, 0, 0, 0, 0, 0, 0, 5, 0, 0, 0, 0, 0x61, 0]
           ## Frame [0, 1, 0, 0, 0, 0, 0, 0, 0, 0, 0, 0, 0x62, 0]
           ## Frame [0, 0, 0, 0, 0, 0, 1, 0, 0, 0, 0, 0, 0x63, 0]
           ## Frame [0xFF] ## sconst Fault,
         device_out = []\<rparr>
      = Some (Inr [\<lparr>entry_name = [0x61], entry_size = 5, entry_kind = ''file''\<rparr>,
                   \<lparr>entry_name = [0x62], entry_size = 0, entry_kind = ''dir''\<rparr>,
                   \<lparr>entry_name = [0x63], entry_size = 256, entry_kind = ''file''\<rparr>],
              \<lparr>device_in = sconst Fault,
               device_out = [[0x40, 0x60], [0x0D, 0x2F, 0],
                             [0x0E], [0x0E], [0x0E], [0x0E], [0x04]]\<rparr>)"
proof -
  have enc: "utf8_encode [0x2F] = Inr [0x2F]"
    by (simp add: utf8_encode_cp_def)
  have d1: "decode_entry [0, 0, 0, 0, 0, 0, 0, 5, 0, 0, 0, 0, 0x61, 0]
       = Inr \<lparr>entry_name = [0x61], entry_size = 5, entry_kind = ''file''\<rparr>"
    by (simp add: decode_entry_def slice_def bytes_find_def)
  have d2: "decode_entry [0, 1, 0, 0, 0, 0, 0, 0, 0, 0, 0, 0, 0x62, 0]
       = Inr \<lparr>entry_name = [0x62], entry_size = 0, entry_kind = ''dir''\<rparr>"
    by (simp add: decode_entry_def slice_def bytes_find_def)
  have d3: "decode_entry [0, 0, 0, 0, 0, 0, 1, 0, 0, 0, 0, 0, 0x63, 0]
       = Inr \<lparr>entry_name = [0x63], entry_size = 256, entry_kind = ''file''\<rparr>"
    by (simp add: decode_entry_def slice_def bytes_find_def)
  from list_directory_three_entries [OF enc _ _ d1 _ d2 _ d3,
      of "\<lparr>device_in = Frame [0] ## Frame [0, 0]
           ## Frame [0, 0, 0, 0, 0, 0, 0, 5, 0, 0, 0, 0, 0x61, 0]
           ## Frame [0, 1, 0, 0, 0, 0, 0, 0, 0, 0, 0, 0, 0x62, 0]
           ## Frame [0, 0, 0, 0, 0, 0, 1, 0, 0, 0, 0, 0, 0x63, 0]
           ## Frame [0xFF] ## sconst Fault,
         device_out = []\<rparr>" "[0]" "[0, 0]" "[]" "sconst Fault"]
    enc d1 d2 d3
  show ?thesis by simp
qed

section \<open>Upload\<close>

lemma send_chunks_done:
  "length file_content \<le> offset \<Longrightarrow> send_chunks offset file_content t = t"
  by (subst send_chunks.simps) simp

lemma send_chunks_step:
  assumes "offset < length file_content"
  shows "send_chunks offset file_content t =
           send_chunks (offset + min 253 (length file_content - offset)) file_content
             \<lparr>device_in = device_in t,
              device_out = device_out t @ [0x05 # take 253 (drop offset file_content)]\<rparr>"
  using assms
  by (subst send_chunks.simps) (simp add: dev_write_def Let_def min.commute)

lemma send_chunks_full:
  assumes "offset + 253 * k \<le> length file_content"
  shows "send_chunks offset file_content t =
           send_chunks (offset + 253 * k) file_content
             \<lparr>device_in = device_in t,
              device_out = device_out t @
                map (\<lambda>i. 0x05 # take 253 (drop (offset + 253 * i) file_content)) [0..<k]\<rparr>"
  using assms
proof (induction k)
  case 0
  then show ?case by simp
next
  case (Suc k)
  let ?t = "\<lparr>device_in = device_in t,
             device_out = device_out t @
               map (\<lambda>i. 0x05 # take 253 (drop (offset + 253 * i) file_content)) [0..<k]\<rparr>"
  from Suc.prems have lt: "offset + 253 * k < length file_content"
    and m: "min 253 (length file_content - (offset + 253 * k)) = 253"
    by simp_all
  from Suc.prems have "send_chunks offset file_content t =
      send_chunks (offset + 253 * k) file_content ?t"
    by (intro Suc.IH) simp
  also from lt have "\<dots> = send_chunks (offset + 253 * k + 253) file_content
      \<lparr>device_in = device_in ?t,
       device_out = device_out ?t @ [0x05 # take 253 (drop (offset + 253 * k) file_content)]\<rparr>"
    by (subst send_chunks_step) (simp_all only: m)
  finally show ?case by (simp add: ac_simps)
qed

lemma send_chunks_multiple:
  assumes "length file_content = 253 * k"
  shows "send_chunks 0 file_content t =
           \<lparr>device_in = device_in t,
            device_out = device_out t @ full_chunks k file_content\<rparr>"
proof -
  from assms have "send_chunks 0 file_content t =
      send_chunks (0 + 253 * k) file_content
        \<lparr>device_in = device_in t,
         device_out = device_out t @
           map (\<lambda>i. 0x05 # take 253 (drop (0 + 253 * i) file_content)) [0..<k]\<rparr>"
    by (intro send_chunks_full) simp
  with assms show ?thesis by (simp add: send_chunks_done full_chunks_def)
qed

lemma single_last: "length ys = Suc 0 \<Longrightarrow> ys = [last ys]"
  by (cases ys) auto

lemma send_chunks_multiple_plus_one:
  assumes "length file_content = 253 * k + 1"
  shows "send_chunks 0 file_content t =
           \<lparr>device_in = device_in t,
            device_out = device_out t @ full_chunks k file_content @ [[0x05, last file_content]]\<rparr>"
proof -
  let ?t = "\<lparr>device_in = device_in t,
             device_out = device_out t @ full_chunks k file_content\<rparr>"
  from assms have tail: "take 253 (drop (253 * k) file_content) = [last file_content]"
    using single_last [of "drop (253 * k) file_content"] by simp
  from assms have "send_chunks 0 file_content t =
      send_chunks (0 + 253 * k) file_content
        \<lparr>device_in = device_in t,
         device_out = device_out t @
           map (\<lambda>i. 0x05 # take 253 (drop (0 + 253 * i) file_content)) [0..<k]\<rparr>"
    by (intro send_chunks_full) simp
  then have "send_chunks 0 file_content t = send_chunks (253 * k) file_content ?t"
    by (simp add: full_chunks_def)
  also from assms have "\<dots> = send_chunks (253 * k + min 253 (length file_content - 253 * k))
      file_content
      \<lparr>device_in = device_in ?t,
       device_out = device_out ?t @ [0x05 # take 253 (drop (253 * k) file_content)]\<rparr>"
    by (intro send_chunks_step) simp
  also from assms tail have "\<dots> = \<lparr>device_in = device_in t,
       device_out = device_out t @ full_chunks k file_content @ [[0x05, last file_content]]\<rparr>"
    by (simp add: send_chunks_done)
  finally show ?thesis .
qed

lemma full_chunks_length: "length (full_chunks k file_content) = k"
  by (simp add: full_chunks_def)

lemma full_chunks_shape:
  assumes "253 * k \<le> length file_content" and "q \<in> set (full_chunks k file_content)"
  shows "hd q = 0x05 \<and> length (tl q) = 253"
  using assms by (auto simp: full_chunks_def)

lemma full_chunks_concat:
  "concat (map tl (full_chunks k file_content)) = take (253 * k) file_content"
proof (induction k)
  case 0
  then show ?case by (simp add: full_chunks_def)
next
  case (Suc k)
  have "concat (map tl (full_chunks (Suc k) file_content)) =
      concat (map tl (full_chunks k file_content)) @ take 253 (drop (253 * k) file_content)"
    by (simp add: full_chunks_def)
  also have "\<dots> = take (253 * k + 253) file_content"
    by (simp add: Suc.IH take_add)
  finally show ?case by (simp add: ac_simps)
qed

lemma file_write_accepted:
  assumes "utf8_encode remote_path = Inr p"
    and "pack_u32 (int (length file_content)) = Inr size_bytes"
    and "device_in t = Frame c ## Frame (0x04 # r) ## Frame fin ## rest"
    and "send_chunks 0 file_content
           \<lparr>device_in = Frame fin ## rest,
            device_out = device_out t @ [[0x40, 0x60], [0x03, 0x01] @ p @ [0] @ size_bytes]\<rparr>
         = \<lparr>device_in = Frame fin ## rest,
            device_out = device_out t @ [[0x40, 0x60], [0x03, 0x01] @ p @ [0] @ size_bytes]
                         @ chunks\<rparr>"
  shows "file_write remote_path file_content t =
           (upload_result fin,
            \<lparr>device_in = rest,
             device_out = device_out t @ [[0x40, 0x60], [0x03, 0x01] @ p @ [0] @ size_bytes]
                          @ chunks @ upload_closing fin\<rparr>)"
  using assms
  by (simp add: file_write_def connect_service_def SERVICE_FILE_def pack_u16_def
      build_packet_def dev_read_def dev_write_def close_service_def upload_result_def
      upload_closing_def)

text \<open>
  Claim C3: an upload whose init frame is accepted sends, after the init frame, for a
  payload of \<open>253 k\<close> bytes exactly the \<open>k\<close> full chunk packets and nothing else
  before the closing; for \<open>253 k + 1\<close> bytes the \<open>k\<close> full packets and then one packet
  with the last byte; for an empty payload no chunk packet, while the init frame is
  written and the final response is read. The full packets are \<open>k\<close> in number, each is
  the marker \<open>0x05\<close> and 253 data bytes, and their data in order is the first \<open>253 k\<close>
  bytes of the payload.
\<close>

theorem file_write_chunk_boundaries:
  assumes "utf8_encode remote_path = Inr p"
    and "pack_u32 (int (length file_content)) = Inr size_bytes"
    and "device_in t = Frame c ## Frame (0x04 # r) ## Frame fin ## rest"
  shows "(length file_content = 253 * k \<longrightarrow>
            file_write remote_path file_content t =
              (upload_result fin,
               \<lparr>device_in = rest,
                device_out = device_out t @ [[0x40, 0x60], [0x03, 0x01] @ p @ [0] @ size_bytes]
                             @ full_chunks k file_content @ upload_closing fin\<rparr>))
       \<and> (length file_content = 253 * k + 1 \<longrightarrow>
            file_write remote_path file_content t =
              (upload_result fin,
               \<lparr>device_in = rest,
                device_out = device_out t @ [[0x40, 0x60], [0x03, 0x01] @ p @ [0] @ size_bytes]
                             @ (full_chunks k file_content @ [[0x05, last file_content]])
                             @ upload_closing fin\<rparr>))
       \<and> (file_content = [] \<longrightarrow>
            file_write remote_path file_content t =
              (upload_result fin,
               \<lparr>device_in = rest,
                device_out = device_out t @ [[0x40, 0x60], [0x03, 0x01] @ p @ [0] @ size_bytes]
                             @ upload_closing fin\<rparr>))
       \<and> length (full_chunks k file_content) = k
       \<and> (253 * k \<le> length file_content \<longrightarrow>
            (\<forall>q \<in> set (full_chunks k file_content). hd q = 0x05 \<and> length (tl q) = 253)
            \<and> concat (map tl (full_chunks k file_content)) = take (253 * k) file_content)"
proof (intro conjI impI)
  assume "length file_content = 253 * k"
  then show "file_write remote_path file_content t =
      (upload_result fin,
       \<lparr>device_in = rest,
        device_out = device_out t @ [[0x40, 0x60], [0x03, 0x01] @ p @ [0] @ size_bytes]
                     @ full_chunks k file_content @ upload_closing fin\<rparr>)"
    by (intro file_write_accepted [OF assms]) (simp add: send_chunks_multiple)
next
  assume "length file_content = 253 * k + 1"
  then show "file_write remote_path file_content t =
      (upload_result fin,
       \<lparr>device_in = rest,
        device_out = device_out t @ [[0x40, 0x60], [0x03, 0x01] @ p @ [0] @ size_bytes]
                     @ (full_chunks k file_content @ [[0x05, last file_content]])
                     @ upload_closing fin\<rparr>)"
    by (intro file_write_accepted [OF assms]) (simp add: send_chunks_multiple_plus_one)
next
  assume "file_content = []"
  then have "file_write remote_path file_content t =
      (upload_result fin,
       \<lparr>device_in = rest,
        device_out = device_out t @ [[0x40, 0x60], [0x03, 0x01] @ p @ [0] @ size_bytes]
                     @ [] @ upload_closing fin\<rparr>)"
    by (intro file_write_accepted [OF assms]) (simp add: send_chunks_done)
  then show "file_write remote_path file_content t =
      (upload_result fin,
       \<lparr>device_in = rest,
        device_out = device_out t @ [[0x40, 0x60], [0x03, 0x01] @ p @ [0] @ size_bytes]
                     @ upload_closing fin\<rparr>)"
    by simp
next
  show "length (full_chunks k file_content) = k"
    by (rule full_chunks_length)
next
  assume "253 * k \<le> length file_content"
  then show "\<forall>q \<in> set (full_chunks k file_content). hd q = 0x05 \<and> length (tl q) = 253"
    by (blast dest: full_chunks_shape)
next
  show "concat (map tl (full_chunks k file_content)) = take (253 * k) file_content"
    by (rule full_chunks_concat)
qed

theorem file_write_chunk_boundaries_witness:
  "utf8_encode [0x2F, 0x61] = Inr [0x2F, 0x61]
   \<and> pack_u32 (int (length (replicate 253 (0x41 :: byte)))) = Inr [0, 0, 0, 253]
   \<and> length (replicate 253 (0x41 :: byte)) = 253 * 1
   \<and> file_write [0x2F, 0x61] (replicate 253 0x41)
        \<lparr>device_in = Frame [0] ## Frame [0x04] ## Frame [0xFF, 0x00] ## sconst Fault,
         device_out = []\<rparr>
      = (Inr (),
         \<lparr>device_in = sconst Fault,
          device_out = [[0x40, 0x60], [0x03, 0x01, 0x2F, 0x61, 0, 0, 0, 0, 253],
                        0x05 # replicate 253 0x41, [0x04]]\<rparr>)
   \<and> pack_u32 (int (length (replicate 254 (0x41 :: byte)))) = Inr [0, 0, 0, 254]
   \<and> length (replicate 254 (0x41 :: byte)) = 253 * 1 + 1
   \<and> file_write [0x2F, 0x61] (replicate 254 0x41)
        \<lparr>device_in = Frame [0] ## Frame [0x04] ## Frame [0xFF, 0x00] ## sconst Fault,
         device_out = []\<rparr>
      = (Inr (),
         \<lparr>device_in = sconst Fault,
          device_out = [[0x40, 0x60], [0x03, 0x01, 0x2F, 0x61, 0, 0, 0, 0, 254],
                        0x05 # replicate 253 0x41, [0x05, 0x41], [0x04]]\<rparr>)
   \<and> pack_u32 (int (length ([] :: byte list))) = Inr [0, 0, 0, 0]
   \<and> file_write [0x2F, 0x61] []
        \<lparr>device_in = Frame [0] ## Frame [0x04] ## Frame [0xFF, 0x00] ## sconst Fault,
         device_out = []\<rparr>
      = (Inr (),
         \<lparr>device_in = sconst Fault,
          device_out = [[0x40, 0x60], [0x03, 0x01, 0x2F, 0x61, 0, 0, 0, 0, 0], [0x04]]\<rparr>)
   \<and> 253 * 1 \<le> length (replicate 253 (0x41 :: byte))
   \<and> list_all (\<lambda>q. hd q = 0x05 \<and> length (tl q) = 253) (full_chunks 1 (replicate 253 0x41))"
proof -
  have enc: "utf8_encode [0x2F, 0x61] = Inr [0x2F, 0x61]"
    by (simp add: utf8_encode_cp_def)
  have p253: "pack_u32 (int (length (replicate 253 (0x41 :: byte)))) = Inr [0, 0, 0, 253]"
    by (simp add: pack_u32_def)
  have p254: "pack_u32 (int (length (replicate 254 (0x41 :: byte)))) = Inr [0, 0, 0, 254]"
    by (simp add: pack_u32_def)
  have p0: "pack_u32 (int (length ([] :: byte list))) = Inr [0, 0, 0, 0]"
    by (simp add: pack_u32_def)
  have dev: "device_in \<lparr>device_in = Frame [0] ## Frame [0x04] ## Frame [0xFF, 0x00]
                 ## sconst Fault, device_out = []\<rparr>
             = Frame [0] ## Frame (0x04 # []) ## Frame [0xFF, 0x00] ## sconst Fault"
    by simp
  note a = file_write_chunk_boundaries [OF enc p253 dev, of 1]
  note b = file_write_chunk_boundaries [OF enc p254 dev, of 1]
  note c = file_write_chunk_boundaries [OF enc p0 dev, of 0]
  from a b c enc p253 p254 p0 show ?thesis
    by (simp add: full_chunks_def upload_result_def upload_closing_def last2_def)
qed

lemma take_drop_chunk:
  "take 253 (drop offset xs) @ drop (offset + length (take 253 (drop offset xs))) xs
     = drop offset xs"
proof -
  have "drop (offset + length (take 253 (drop offset xs))) xs
      = drop (length (take 253 (drop offset xs))) (drop offset xs)"
    by (simp add: add.commute)
  also have "\<dots> = drop 253 (drop offset xs)"
    by (cases "253 \<le> length (drop offset xs)") (simp_all add: min_def)
  finally show ?thesis by (simp only: append_take_drop_id)
qed

lemma send_chunks_all:
  "\<exists>ps. send_chunks offset file_content t
           = \<lparr>device_in = device_in t, device_out = device_out t @ ps\<rparr>
        \<and> list_all (\<lambda>q. hd q = 0x05 \<and> 1 \<le> length (tl q) \<and> length (tl q) \<le> 253) ps
        \<and> concat (map tl ps) = drop offset file_content"
proof (induction offset file_content t rule: send_chunks.induct)
  case (1 offset file_content t)
  show ?case
  proof (cases "offset < length file_content")
    case False
    then have "send_chunks offset file_content t
        = \<lparr>device_in = device_in t, device_out = device_out t @ []\<rparr>"
      by (simp add: send_chunks_done)
    with False show ?thesis by (intro exI [of _ "[]"]) simp
  next
    case True
    let ?chunk = "take 253 (drop offset file_content)"
    let ?t = "dev_write (0x05 # ?chunk) t"
    from "1.IH" [OF True refl refl] obtain ps where
      run: "send_chunks (offset + length ?chunk) file_content ?t
          = \<lparr>device_in = device_in ?t, device_out = device_out ?t @ ps\<rparr>"
      and shape: "list_all (\<lambda>q. hd q = 0x05 \<and> 1 \<le> length (tl q) \<and> length (tl q) \<le> 253) ps"
      and data: "concat (map tl ps) = drop (offset + length ?chunk) file_content"
      by blast
    from True have "send_chunks offset file_content t
        = send_chunks (offset + length ?chunk) file_content ?t"
      by (subst send_chunks.simps) (simp add: Let_def)
    with run have "send_chunks offset file_content t
        = \<lparr>device_in = device_in t, device_out = device_out t @ ((0x05 # ?chunk) # ps)\<rparr>"
      by (simp add: dev_write_def)
    moreover from True shape
    have "list_all (\<lambda>q. hd q = 0x05 \<and> 1 \<le> length (tl q) \<and> length (tl q) \<le> 253)
        ((0x05 # ?chunk) # ps)"
      by simp
    moreover have "concat (map tl ((0x05 # ?chunk) # ps)) = drop offset file_content"
    proof -
      have "concat (map tl ((0x05 # ?chunk) # ps)) = ?chunk @ concat (map tl ps)"
        by simp
      with data show ?thesis by (simp only: take_drop_chunk)
    qed
    ultimately show ?thesis by blast
  qed
qed

section \<open>Download\<close>

lemma frames_data_Cons: "frames_data (f # fs) = drop 1 f @ frames_data fs"
  by (simp add: frames_data_def)

lemma frames_data_length_Cons:
  "f \<noteq> [] \<Longrightarrow>
     int (length (frames_data (f # fs))) = int (length f) - 1 + int (length (frames_data fs))"
  by (cases f) (simp_all add: frames_data_def)

lemma frames_data_Nil: "frames_data [] = []"
  by (simp add: frames_data_def)

lemma recv_chunk_frame:
  assumes "device_in t = Frame f ## s" and "f \<noteq> []"
  shows "recv_chunk t bytes_left data =
           (Inr (bytes_left - (int (length f) - 1), data @ drop 1 f),
            \<lparr>device_in = s, device_out = device_out t\<rparr>)"
  using assms by (cases f) (simp_all add: recv_chunk_def dev_read_def)

lemma recv_chunk_empty:
  assumes "device_in t = Frame [] ## s"
  shows "recv_chunk t bytes_left data =
           (Inl (Exception ''Unexpected timeout during file read.''),
            \<lparr>device_in = s, device_out = device_out t\<rparr>)"
  using assms by (simp add: recv_chunk_def dev_read_def)

lemma recv_loop_done: "bytes_left \<le> 0 \<Longrightarrow> recv_loop t bytes_left data = Some (Inr (bytes_left, data), t)"
  by (subst recv_loop.simps) simp

lemma recv_loop_frame:
  assumes "0 < bytes_left" and "device_in t = Frame f ## s" and "f \<noteq> []"
  shows "recv_loop t bytes_left data =
           recv_loop \<lparr>device_in = s, device_out = device_out t\<rparr>
             (bytes_left - (int (length f) - 1)) (data @ drop 1 f)"
  using assms(1) recv_chunk_frame [OF assms(2,3)]
  by (subst recv_loop.simps) simp

lemma recv_loop_empty:
  assumes "0 < bytes_left" and "device_in t = Frame [] ## s"
  shows "recv_loop t bytes_left data =
           Some (Inl (Exception ''Unexpected timeout during file read.''),
                 \<lparr>device_in = s, device_out = device_out t\<rparr>)"
  using assms(1) recv_chunk_empty [OF assms(2)]
  by (subst recv_loop.simps) simp

lemma recv_loop_within_request:
  assumes "within_request bytes_left fs" and "0 \<le> bytes_left"
    and "bytes_left \<le> int (length (frames_data fs))"
    and "device_in t = map Frame fs @- rest"
  shows "\<exists>s. recv_loop t bytes_left data =
           Some (Inr (0, data @ take (nat bytes_left) (frames_data fs)),
                 \<lparr>device_in = s, device_out = device_out t\<rparr>)"
  using assms
proof (induction fs arbitrary: bytes_left data t)
  case Nil
  then have "bytes_left = 0" by (simp add: frames_data_Nil)
  then have "recv_loop t bytes_left data =
      Some (Inr (0, data @ take (nat bytes_left) (frames_data [])),
            \<lparr>device_in = device_in t, device_out = device_out t\<rparr>)"
    by (simp add: recv_loop_done)
  then show ?case by blast
next
  case (Cons f fs)
  show ?case
  proof (cases "0 < bytes_left")
    case False
    with Cons.prems(2) have "bytes_left = 0" by simp
    then have "recv_loop t bytes_left data =
        Some (Inr (0, data @ take (nat bytes_left) (frames_data (f # fs))),
              \<lparr>device_in = device_in t, device_out = device_out t\<rparr>)"
      by (simp add: recv_loop_done)
    then show ?thesis by blast
  next
    case True
    let ?left = "bytes_left - (int (length f) - 1)"
    let ?t = "\<lparr>device_in = map Frame fs @- rest, device_out = device_out t\<rparr>"
    from True Cons.prems(1) have f: "f \<noteq> []" and len: "int (length f) \<le> bytes_left + 1"
      and rest: "within_request ?left fs"
      by auto
    from Cons.prems(4) have dev: "device_in t = Frame f ## (map Frame fs @- rest)" by simp
    from len have nonneg: "0 \<le> ?left" by simp
    from Cons.prems(3) frames_data_length_Cons [OF f, of fs]
    have enough: "?left \<le> int (length (frames_data fs))"
      by simp
    have "device_in ?t = map Frame fs @- rest" by simp
    from Cons.IH [OF rest nonneg enough this, of "data @ drop 1 f"]
    obtain s where s: "recv_loop ?t ?left (data @ drop 1 f) =
        Some (Inr (0, (data @ drop 1 f) @ take (nat ?left) (frames_data fs)),
              \<lparr>device_in = s, device_out = device_out ?t\<rparr>)"
      by blast
    from f len have "nat bytes_left - (length f - Suc 0) = nat ?left"
      by (cases f) auto
    with f len have "take (nat bytes_left) (frames_data (f # fs)) =
        drop 1 f @ take (nat ?left) (frames_data fs)"
      by (simp add: frames_data_Cons)
    with s recv_loop_frame [OF True dev f, of data] show ?thesis by simp
  qed
qed

lemma recv_loop_prefix:
  assumes "\<forall>f \<in> set fs. f \<noteq> []"
    and "int (length (frames_data fs)) < bytes_left"
    and "device_in t = map Frame fs @- s"
  shows "recv_loop t bytes_left data =
           recv_loop \<lparr>device_in = s, device_out = device_out t\<rparr>
             (bytes_left - int (length (frames_data fs))) (data @ frames_data fs)"
  using assms
proof (induction fs arbitrary: bytes_left data t)
  case Nil
  then show ?case by (simp add: frames_data_Nil transport_rebuild)
next
  case (Cons f fs)
  let ?left = "bytes_left - (int (length f) - 1)"
  let ?t = "\<lparr>device_in = map Frame fs @- s, device_out = device_out t\<rparr>"
  from Cons.prems(1) have f: "f \<noteq> []" and fs: "\<forall>f \<in> set fs. f \<noteq> []" by simp_all
  from Cons.prems(2) have pos: "0 < bytes_left" by simp
  from Cons.prems(3) have dev: "device_in t = Frame f ## (map Frame fs @- s)" by simp
  note d = frames_data_length_Cons [OF f, of fs]
  from Cons.prems(2) d have less: "int (length (frames_data fs)) < ?left"
    by simp
  have "recv_loop t bytes_left data = recv_loop ?t ?left (data @ drop 1 f)"
    using pos dev f by (rule recv_loop_frame)
  also have "\<dots> = recv_loop \<lparr>device_in = s, device_out = device_out ?t\<rparr>
      (?left - int (length (frames_data fs))) ((data @ drop 1 f) @ frames_data fs)"
    using fs less by (rule Cons.IH) simp
  finally have "recv_loop t bytes_left data =
      recv_loop \<lparr>device_in = s, device_out = device_out t\<rparr>
        (?left - int (length (frames_data fs))) (data @ frames_data (f # fs))"
    by (simp add: frames_data_Cons)
  moreover from d have "?left - int (length (frames_data fs)) =
      bytes_left - int (length (frames_data (f # fs)))"
    by simp
  ultimately show ?case by (simp only:)
qed

lemma file_read_accepted:
  assumes "utf8_encode remote_path = Inr p"
    and "device_in t = Frame c ## Frame h ## s"
    and "16 \<le> length h" and "take 2 h = [0x03, 0x01]"
    and "unpack_u32 (slice h 12 16) = Inr total_size"
  shows "file_read remote_path t =
           (case recv_loop
                   \<lparr>device_in = s,
                    device_out = device_out t @ [[0x40, 0x60], [0x07, 0x01] @ p @ [0], [0x04]]\<rparr>
                   total_size [] of
              None \<Rightarrow> None
            | Some (Inl e, t3) \<Rightarrow> Some (Inl e, t3)
            | Some (Inr (bytes_left, data_received), t3) \<Rightarrow>
                Some (Inr data_received, close_service (dev_write [0xFF, 0x00] t3)))"
  using assms
  by (simp add: file_read_def connect_service_def SERVICE_FILE_def pack_u16_def
      dev_read_def dev_write_def)

text \<open>
  Claim C2: in a download whose header is accepted and in which every frame read while
  bytes remain is non-empty and no longer than the \<open>min (bytes_left + 1) 254\<close> bytes
  asked for, the frames carrying at least \<open>total_size\<close> data bytes in all, the receive
  loop exits with \<open>bytes_left\<close> exactly zero and the data of the frames, each without
  its first byte, in order; \<open>file_read\<close> returns that buffer, its length is
  \<open>total_size\<close>, and the last two writes are the acknowledgment \<open>0xFF 0x00\<close> and the
  disconnect byte \<open>0x04\<close>.
\<close>

theorem file_read_complete:
  assumes "utf8_encode remote_path = Inr p"
    and "device_in t = Frame c ## Frame h ## (map Frame fs @- rest)"
    and "16 \<le> length h" and "take 2 h = [0x03, 0x01]"
    and "unpack_u32 (slice h 12 16) = Inr total_size"
    and "within_request total_size fs"
    and "total_size \<le> int (length (frames_data fs))"
  shows "\<exists>s.
           recv_loop
             \<lparr>device_in = map Frame fs @- rest,
              device_out = device_out t @ [[0x40, 0x60], [0x07, 0x01] @ p @ [0], [0x04]]\<rparr>
             total_size []
           = Some (Inr (0, take (nat total_size) (frames_data fs)),
                   \<lparr>device_in = s,
                    device_out = device_out t @
                      [[0x40, 0x60], [0x07, 0x01] @ p @ [0], [0x04]]\<rparr>)
         \<and> file_read remote_path t
           = Some (Inr (take (nat total_size) (frames_data fs)),
                   \<lparr>device_in = s,
                    device_out = device_out t @
                      [[0x40, 0x60], [0x07, 0x01] @ p @ [0], [0x04], [0xFF, 0x00], [0x04]]\<rparr>)
         \<and> int (length (take (nat total_size) (frames_data fs))) = total_size"
proof -
  let ?t = "\<lparr>device_in = map Frame fs @- rest,
             device_out = device_out t @ [[0x40, 0x60], [0x07, 0x01] @ p @ [0], [0x04]]\<rparr>"
  from assms(5) have nonneg: "0 \<le> total_size" by (rule unpack_u32_nonneg)
  have "device_in ?t = map Frame fs @- rest" by simp
  from recv_loop_within_request [OF assms(6) nonneg assms(7) this, of "[]"]
  obtain s where loop: "recv_loop ?t total_size [] =
      Some (Inr (0, take (nat total_size) (frames_data fs)),
            \<lparr>device_in = s, device_out = device_out ?t\<rparr>)"
    by auto
  have "file_read remote_path t =
      (case recv_loop ?t total_size [] of
         None \<Rightarrow> None
       | Some (Inl e, t3) \<Rightarrow> Some (Inl e, t3)
       | Some (Inr (bytes_left, data_received), t3) \<Rightarrow>
           Some (Inr data_received, close_service (dev_write [0xFF, 0x00] t3)))"
    by (rule file_read_accepted [OF assms(1-5)])
  with loop have "file_read remote_path t =
      Some (Inr (take (nat total_size) (frames_data fs)),
            \<lparr>device_in = s,
             device_out = device_out t @
               [[0x40, 0x60], [0x07, 0x01] @ p @ [0], [0x04], [0xFF, 0x00], [0x04]]\<rparr>)"
    by (simp add: close_service_def dev_write_def)
  moreover from nonneg assms(7)
  have "int (length (take (nat total_size) (frames_data fs))) = total_size"
    by simp
  ultimately show ?thesis using loop by auto
qed

theorem file_read_complete_witness:
  "utf8_encode [0x2F, 0x61] = Inr [0x2F, 0x61]
   \<and> 16 \<le> length [0x03, 0x01, 0, 0, 0, 0, 0, 0, 0, 0, 0, 0, 0, 0, 0, 3 :: byte]
   \<and> take 2 [0x03, 0x01, 0, 0, 0, 0, 0, 0, 0, 0, 0, 0, 0, 0, 0, 3 :: byte] = [0x03, 0x01]
   \<and> unpack_u32 (slice [0x03, 0x01, 0, 0, 0, 0, 0, 0, 0, 0, 0, 0, 0, 0, 0, 3] 12 16) = Inr 3
   \<and> within_request 3 [[0x05, 0x41, 0x42], [0x05, 0x43]]
   \<and> 3 \<le> int (length (frames_data [[0x05, 0x41, 0x42], [0x05, 0x43]]))
   \<and> (\<exists>s. file_read [0x2F, 0x61]
          \<lparr>device_in = Frame [0]
             ## Frame [0x03, 0x01, 0, 0, 0, 0, 0, 0, 0, 0, 0, 0, 0, 0, 0, 3]
             ## Frame [0x05, 0x41, 0x42] ## Frame [0x05, 0x43] ## sconst Fault,
           device_out = []\<rparr>
        = Some (Inr [0x41, 0x42, 0x43],
                \<lparr>device_in = s,
                 device_out = [[0x40, 0x60], [0x07, 0x01, 0x2F, 0x61, 0], [0x04],
                               [0xFF, 0x00], [0x04]]\<rparr>))"
proof -
  have enc: "utf8_encode [0x2F, 0x61] = Inr [0x2F, 0x61]"
    by (simp add: utf8_encode_cp_def)
  have size: "unpack_u32 (slice [0x03, 0x01, 0, 0, 0, 0, 0, 0, 0, 0, 0, 0, 0, 0, 0, 3] 12 16)
      = Inr 3"
    by (simp add: slice_def)
  have frames: "within_request 3 [[0x05, 0x41, 0x42], [0x05, 0x43]]"
    by simp
  have enough: "3 \<le> int (length (frames_data [[0x05, 0x41, 0x42], [0x05, 0x43]]))"
    by (simp add: frames_data_def)
  have dev: "device_in \<lparr>device_in = Frame [0]
        ## Frame [0x03, 0x01, 0, 0, 0, 0, 0, 0, 0, 0, 0, 0, 0, 0, 0, 3]
        ## Frame [0x05, 0x41, 0x42] ## Frame [0x05, 0x43] ## sconst Fault, device_out = []\<rparr>
      = Frame [0] ## Frame [0x03, 0x01, 0, 0, 0, 0, 0, 0, 0, 0, 0, 0, 0, 0, 0, 3]
        ## (map Frame [[0x05, 0x41, 0x42], [0x05, 0x43]] @- sconst Fault)"
    by simp
  have run: "\<exists>s. file_read [0x2F, 0x61]
          \<lparr>device_in = Frame [0]
             ## Frame [0x03, 0x01, 0, 0, 0, 0, 0, 0, 0, 0, 0, 0, 0, 0, 0, 3]
             ## Frame [0x05, 0x41, 0x42] ## Frame [0x05, 0x43] ## sconst Fault,
           device_out = []\<rparr>
        = Some (Inr [0x41, 0x42, 0x43],
                \<lparr>device_in = s,
                 device_out = [[0x40, 0x60], [0x07, 0x01, 0x2F, 0x61, 0], [0x04],
                               [0xFF, 0x00], [0x04]]\<rparr>)"
    using file_read_complete [OF enc dev _ _ size frames enough]
    by (auto simp: frames_data_def)
  show ?thesis
    by (intro conjI enc size frames enough run) simp_all
qed

text \<open>
  Claim C6: the count of transferred bytes strictly increases at each chunk step. A
  chunk step that reads a frame holding only the marker byte succeeds and leaves both
  the received data and \<open>bytes_left\<close> as they were.
\<close>

theorem recv_chunk_marker_only_no_progress:
  "recv_chunk \<lparr>device_in = Frame [0x05] ## sconst Fault, device_out = []\<rparr> 3 [0x41, 0x42]
     = (Inr (3, [0x41, 0x42]), \<lparr>device_in = sconst Fault, device_out = []\<rparr>)"
  by (simp add: recv_chunk_def dev_read_def)

text \<open>
  Claim C6, as amended. In an upload every chunk packet carries between 1 and 253 data
  bytes and the data of the packets, in order, is the whole payload: the count of bytes
  sent strictly increases at each chunk step and ends at the payload's length. In a
  download the count of received bytes never decreases at a chunk step: it grows by
  what \<open>bytes_left\<close> falls, and it grows strictly exactly when the frame read has two
  bytes or more. When every frame is within the requested length and the frames carry
  enough data, the loop completes with \<open>bytes_left = 0\<close> and the count raised by
  exactly the \<open>bytes_left\<close> it started from. A zero-length read while bytes remain
  makes \<open>file_read\<close> raise "Unexpected timeout during file read." instead of returning
  the data received so far.
\<close>

theorem transfer_progress:
  "(\<exists>ps. send_chunks 0 file_content t
            = \<lparr>device_in = device_in t, device_out = device_out t @ ps\<rparr>
         \<and> list_all (\<lambda>q. hd q = 0x05 \<and> 1 \<le> length (tl q) \<and> length (tl q) \<le> 253) ps
         \<and> concat (map tl ps) = file_content)
   \<and> (recv_chunk t bytes_left data = (Inr (bytes_left', data'), t') \<longrightarrow>
      length data \<le> length data'
      \<and> int (length data') - int (length data) = bytes_left - bytes_left'
      \<and> (length data < length data' \<longleftrightarrow> (\<exists>f. shd (device_in t) = Frame f \<and> 2 \<le> length f)))
   \<and> (device_in t = map Frame fs @- rest \<and> 0 \<le> bytes_left \<and> within_request bytes_left fs
       \<and> bytes_left \<le> int (length (frames_data fs)) \<longrightarrow>
      (\<exists>d s. recv_loop t bytes_left data
                = Some (Inr (0, d), \<lparr>device_in = s, device_out = device_out t\<rparr>)
             \<and> int (length d) = int (length data) + bytes_left))
   \<and> (utf8_encode remote_path = Inr p
       \<and> device_in t = Frame c ## Frame h ## (map Frame fs @- (Frame [] ## rest))
       \<and> 16 \<le> length h \<and> take 2 h = [0x03, 0x01]
       \<and> unpack_u32 (slice h 12 16) = Inr total_size
       \<and> (\<forall>f \<in> set fs. f \<noteq> []) \<and> int (length (frames_data fs)) < total_size \<longrightarrow>
      file_read remote_path t
        = Some (Inl (Exception ''Unexpected timeout during file read.''),
                \<lparr>device_in = rest,
                 device_out = device_out t @
                   [[0x40, 0x60], [0x07, 0x01] @ p @ [0], [0x04]]\<rparr>))"
proof (intro conjI impI)
  show "\<exists>ps. send_chunks 0 file_content t
          = \<lparr>device_in = device_in t, device_out = device_out t @ ps\<rparr>
       \<and> list_all (\<lambda>q. hd q = 0x05 \<and> 1 \<le> length (tl q) \<and> length (tl q) \<le> 253) ps
       \<and> concat (map tl ps) = file_content"
    using send_chunks_all [of 0 file_content t] by simp
next
  assume step: "recv_chunk t bytes_left data = (Inr (bytes_left', data'), t')"
  then obtain f where f: "shd (device_in t) = Frame f" and ne: "f \<noteq> []"
    and left: "bytes_left' = bytes_left - int (length (drop 1 f))"
    and data: "data' = data @ drop 1 f"
    by (auto simp: recv_chunk_def dev_read_def Let_def split: rx_event.splits if_splits)
  from data show "length data \<le> length data'" by simp
  from data left show "int (length data') - int (length data) = bytes_left - bytes_left'"
    by simp
  from f ne data show "length data < length data' \<longleftrightarrow>
      (\<exists>f. shd (device_in t) = Frame f \<and> 2 \<le> length f)"
    by (cases f) (auto simp: Suc_le_eq)
next
  assume a: "device_in t = map Frame fs @- rest \<and> 0 \<le> bytes_left
      \<and> within_request bytes_left fs \<and> bytes_left \<le> int (length (frames_data fs))"
  then obtain s where "recv_loop t bytes_left data =
      Some (Inr (0, data @ take (nat bytes_left) (frames_data fs)),
            \<lparr>device_in = s, device_out = device_out t\<rparr>)"
    using recv_loop_within_request [of bytes_left fs t rest data] by blast
  moreover from a
  have "int (length (data @ take (nat bytes_left) (frames_data fs)))
      = int (length data) + bytes_left"
    by auto
  ultimately show "\<exists>d s. recv_loop t bytes_left data
        = Some (Inr (0, d), \<lparr>device_in = s, device_out = device_out t\<rparr>)
      \<and> int (length d) = int (length data) + bytes_left"
    by blast
next
  assume a: "utf8_encode remote_path = Inr p
      \<and> device_in t = Frame c ## Frame h ## (map Frame fs @- (Frame [] ## rest))
      \<and> 16 \<le> length h \<and> take 2 h = [0x03, 0x01]
      \<and> unpack_u32 (slice h 12 16) = Inr total_size
      \<and> (\<forall>f \<in> set fs. f \<noteq> []) \<and> int (length (frames_data fs)) < total_size"
  let ?out = "device_out t @ [[0x40, 0x60], [0x07, 0x01] @ p @ [0], [0x04]]"
  let ?t = "\<lparr>device_in = map Frame fs @- (Frame [] ## rest), device_out = ?out\<rparr>"
  let ?stall = "\<lparr>device_in = Frame [] ## rest, device_out = ?out\<rparr>"
  from a have "recv_loop ?t total_size [] =
      recv_loop \<lparr>device_in = Frame [] ## rest, device_out = device_out ?t\<rparr>
        (total_size - int (length (frames_data fs))) ([] @ frames_data fs)"
    by (intro recv_loop_prefix) simp_all
  also from a have "\<dots> =
      Some (Inl (Exception ''Unexpected timeout during file read.''),
            \<lparr>device_in = rest, device_out = device_out ?stall\<rparr>)"
    by (simp add: recv_loop_empty)
  finally have loop: "recv_loop ?t total_size [] =
      Some (Inl (Exception ''Unexpected timeout during file read.''),
            \<lparr>device_in = rest, device_out = ?out\<rparr>)"
    by simp
  from a have enc: "utf8_encode remote_path = Inr p"
    and dev: "device_in t = Frame c ## Frame h ## (map Frame fs @- (Frame [] ## rest))"
    and hdr: "16 \<le> length h" "take 2 h = [0x03, 0x01]"
    and size: "unpack_u32 (slice h 12 16) = Inr total_size"
    by blast+
  have "file_read remote_path t =
      (case recv_loop ?t total_size [] of
         None \<Rightarrow> None
       | Some (Inl e, t3) \<Rightarrow> Some (Inl e, t3)
       | Some (Inr (bytes_left, data_received), t3) \<Rightarrow>
           Some (Inr data_received, close_service (dev_write [0xFF, 0x00] t3)))"
    by (rule file_read_accepted [OF enc dev hdr size])
  with loop show "file_read remote_path t =
      Some (Inl (Exception ''Unexpected timeout during file read.''),
            \<lparr>device_in = rest, device_out = ?out\<rparr>)"
    by simp
qed

theorem transfer_progress_witness:
  "(\<exists>ps. send_chunks 0 [0x41, 0x42] \<lparr>device_in = sconst Fault, device_out = []\<rparr>
            = \<lparr>device_in = sconst Fault, device_out = ps\<rparr>
         \<and> list_all (\<lambda>q. hd q = 0x05 \<and> 1 \<le> length (tl q) \<and> length (tl q) \<le> 253) ps
         \<and> concat (map tl ps) = [0x41, 0x42])
   \<and> recv_chunk \<lparr>device_in = Frame [0x05, 0x41] ## sconst Fault, device_out = []\<rparr> 2 [0x40]
     = (Inr (1, [0x40, 0x41]), \<lparr>device_in = sconst Fault, device_out = []\<rparr>)
   \<and> length [0x40 :: byte] < length [0x40, 0x41 :: byte]
   \<and> (\<exists>f. shd (device_in \<lparr>device_in = Frame [0x05, 0x41] ## sconst Fault, device_out = []\<rparr>)
            = Frame f \<and> 2 \<le> length f)
   \<and> within_request 2 [[0x05, 0x41], [0x05, 0x42]]
   \<and> 2 \<le> int (length (frames_data [[0x05, 0x41], [0x05, 0x42]]))
   \<and> (\<exists>d s. recv_loop
               \<lparr>device_in = map Frame [[0x05, 0x41], [0x05, 0x42]] @- sconst Fault,
                device_out = []\<rparr> 2 []
             = Some (Inr (0, d), \<lparr>device_in = s, device_out = []\<rparr>)
           \<and> int (length d) = int (length ([] :: byte list)) + 2)
   \<and> utf8_encode [0x2F, 0x61] = Inr [0x2F, 0x61]
   \<and> unpack_u32 (slice [0x03, 0x01, 0, 0, 0, 0, 0, 0, 0, 0, 0, 0, 0, 0, 0, 2] 12 16) = Inr 2
   \<and> [] \<notin> set [[0x05, 0x41 :: byte]]
   \<and> int (length (frames_data [[0x05, 0x41]])) < 2
   \<and> file_read [0x2F, 0x61]
        \<lparr>device_in = Frame [0]
           ## Frame [0x03, 0x01, 0, 0, 0, 0, 0, 0, 0, 0, 0, 0, 0, 0, 0, 2]
           ## (map Frame [[0x05, 0x41]] @- (Frame [] ## sconst Fault)),
         device_out = []\<rparr>
      = Some (Inl (Exception ''Unexpected timeout during file read.''),
              \<lparr>device_in = sconst Fault,
               device_out = [[0x40, 0x60], [0x07, 0x01, 0x2F, 0x61, 0], [0x04]]\<rparr>)"
proof -
  let ?t1 = "\<lparr>device_in = Frame [0x05, 0x41] ## sconst Fault, device_out = []\<rparr>"
  let ?t2 = "\<lparr>device_in = map Frame [[0x05, 0x41], [0x05, 0x42]] @- sconst Fault,
              device_out = []\<rparr>"
  let ?t3 = "\<lparr>device_in = Frame [0]
               ## Frame [0x03, 0x01, 0, 0, 0, 0, 0, 0, 0, 0, 0, 0, 0, 0, 0, 2]
               ## (map Frame [[0x05, 0x41]] @- (Frame [] ## sconst Fault)),
              device_out = []\<rparr>"
  have step: "recv_chunk ?t1 2 [0x40]
      = (Inr (1, [0x40, 0x41]), \<lparr>device_in = sconst Fault, device_out = []\<rparr>)"
    by (simp add: recv_chunk_def dev_read_def)
  have frames: "within_request 2 [[0x05, 0x41], [0x05, 0x42]]"
    by simp
  have enough: "2 \<le> int (length (frames_data [[0x05, 0x41], [0x05, 0x42]]))"
    by (simp add: frames_data_def)
  have enc: "utf8_encode [0x2F, 0x61] = Inr [0x2F, 0x61]"
    by (simp add: utf8_encode_cp_def)
  have size: "unpack_u32 (slice [0x03, 0x01, 0, 0, 0, 0, 0, 0, 0, 0, 0, 0, 0, 0, 0, 2] 12 16)
      = Inr 2"
    by (simp add: slice_def)
  have short: "int (length (frames_data [[0x05, 0x41]])) < 2"
    by (simp add: frames_data_def)
  have a: "length [0x40 :: byte] < length [0x40, 0x41 :: byte]
      \<and> (\<exists>f. shd (device_in ?t1) = Frame f \<and> 2 \<le> length f)"
    using transfer_progress [where t = ?t1 and bytes_left = 2 and data = "[0x40]"
        and bytes_left' = 1 and data' = "[0x40, 0x41]"
        and t' = "\<lparr>device_in = sconst Fault, device_out = []\<rparr>"] step
    by simp
  have b: "\<exists>d s. recv_loop ?t2 2 []
        = Some (Inr (0, d), \<lparr>device_in = s, device_out = []\<rparr>)
      \<and> int (length d) = int (length ([] :: byte list)) + 2"
    using transfer_progress [where t = ?t2 and bytes_left = 2 and data = "[]"
        and fs = "[[0x05, 0x41], [0x05, 0x42]]" and rest = "sconst Fault"]
      frames enough
    by simp
  have c: "file_read [0x2F, 0x61] ?t3
      = Some (Inl (Exception ''Unexpected timeout during file read.''),
              \<lparr>device_in = sconst Fault,
               device_out = [[0x40, 0x60], [0x07, 0x01, 0x2F, 0x61, 0], [0x04]]\<rparr>)"
    using transfer_progress [where t = ?t3 and remote_path = "[0x2F, 0x61]"
        and p = "[0x2F, 0x61]" and c = "[0]"
        and h = "[0x03, 0x01, 0, 0, 0, 0, 0, 0, 0, 0, 0, 0, 0, 0, 0, 2]"
        and fs = "[[0x05, 0x41]]" and rest = "sconst Fault" and total_size = 2]
      enc size short
    by simp
  have u: "\<exists>ps. send_chunks 0 [0x41, 0x42] \<lparr>device_in = sconst Fault, device_out = []\<rparr>
        = \<lparr>device_in = sconst Fault, device_out = ps\<rparr>
      \<and> list_all (\<lambda>q. hd q = 0x05 \<and> 1 \<le> length (tl q) \<and> length (tl q) \<le> 253) ps
      \<and> concat (map tl ps) = [0x41, 0x42]"
    using transfer_progress [where t = "\<lparr>device_in = sconst Fault, device_out = []\<rparr>"
        and file_content = "[0x41, 0x42]"]
    by simp
  from a have a1: "length [0x40 :: byte] < length [0x40, 0x41 :: byte]"
    and a2: "\<exists>f. shd (device_in ?t1) = Frame f \<and> 2 \<le> length f"
    by blast+
  show ?thesis
    by (intro conjI u step a1 a2 frames enough b enc size short c) simp_all
qed




end
